theory Spec2Isabelle
  imports Complex_Main
begin

section \<open>Go strings and conversions used by the provider\<close>

text \<open>
  A Go string is a sequence of bytes, which is what \<^typ>\<open>string\<close> is here. The functions
  of this section are the ones of the Go standard library that the package calls
  (\<^verbatim>\<open>strings.HasSuffix\<close>, \<^verbatim>\<open>strings.TrimSuffix\<close>, \<^verbatim>\<open>strings.SplitN\<close>,
  \<^verbatim>\<open>strings.EqualFold\<close>, \<^verbatim>\<open>strconv.Atoi\<close>, \<^verbatim>\<open>strconv.FormatInt\<close>), written after
  their documented behaviour.
\<close>

definition HasSuffix :: "string \<Rightarrow> string \<Rightarrow> bool" where
  \<comment> \<open>\<^verbatim>\<open>len(s) >= len(suffix) && s[len(s)-len(suffix):] == suffix\<close>\<close>
  "HasSuffix s suf = (length suf \<le> length s \<and> drop (length s - length suf) s = suf)"

definition TrimSuffix :: "string \<Rightarrow> string \<Rightarrow> string" where
  \<comment> \<open>\<^verbatim>\<open>if HasSuffix(s, suffix) { return s[:len(s)-len(suffix)] }; return s\<close>\<close>
  "TrimSuffix s suf = (if HasSuffix s suf then take (length s - length suf) s else s)"

definition firstLabel :: "string \<Rightarrow> string" where
  \<comment> \<open>\<^verbatim>\<open>strings.SplitN(s, ".", 2)[0]\<close>: the text before the first dot, all of \<open>s\<close> when it has none\<close>
  "firstLabel s = takeWhile (\<lambda>c. c \<noteq> CHR ''.'') s"

definition foldChar :: "char \<Rightarrow> char" where
  \<comment> \<open>the letters \<open>A\<close> to \<open>Z\<close> (bytes 65 to 90) fold to \<open>a\<close> to \<open>z\<close>\<close>
  "foldChar c =
     (if (65::nat) \<le> of_char c \<and> of_char c \<le> (90::nat) then char_of (of_char c + (32::nat)) else c)"

definition EqualFold :: "string \<Rightarrow> string \<Rightarrow> bool" where
  \<comment> \<open>\<^verbatim>\<open>strings.EqualFold\<close> on ASCII text: equality up to the case of letters. DNS names and
      record types are ASCII; bytes above 127 are compared as they are.\<close>
  "EqualFold s t = (map foldChar s = map foldChar t)"

definition isDigit :: "char \<Rightarrow> bool" where
  "isDigit c = ((48::nat) \<le> of_char c \<and> of_char c \<le> (57::nat))"

fun decimal :: "int \<Rightarrow> string \<Rightarrow> int" where
  "decimal acc [] = acc"
| "decimal acc (c # cs) = decimal (acc * 10 + (int (of_char c) - 48)) cs"

definition Atoi :: "string \<Rightarrow> int option" where
  \<comment> \<open>\<^verbatim>\<open>strconv.Atoi\<close>: an optional sign, then one or more decimal digits, the value in the
      range of a 64-bit \<^verbatim>\<open>int\<close>; \<open>None\<close> is the returned error (syntax or range)\<close>
  "Atoi s =
     (let neg = (s \<noteq> [] \<and> hd s = CHR ''-'');
          ds = (if s \<noteq> [] \<and> (hd s = CHR ''-'' \<or> hd s = CHR ''+'') then tl s else s)
      in if ds = [] then None
         else if list_all isDigit ds then
           (let n = (if neg then - decimal 0 ds else decimal 0 ds)
            in if - (2 ^ 63) \<le> n \<and> n < 2 ^ 63 then Some n else None)
         else None)"

function digits :: "nat \<Rightarrow> string" where
  "digits n = (if n < 10 then [char_of (48 + n)] else digits (n div 10) @ [char_of (48 + n mod 10)])"
  by pat_completeness auto
termination
  by (relation "measure id") auto

declare digits.simps [simp del]

definition FormatInt :: "int \<Rightarrow> string" where
  \<comment> \<open>\<^verbatim>\<open>strconv.FormatInt(i, 10)\<close>\<close>
  "FormatInt i = (if i < 0 then CHR ''-'' # digits (nat (- i)) else digits (nat i))"

definition toward_zero :: "rat \<Rightarrow> int" where
  \<comment> \<open>rounding toward zero, the integer part of a number\<close>
  "toward_zero q = (if q < 0 then - \<lfloor>- q\<rfloor> else \<lfloor>q\<rfloor>)"

definition int64_of_float64 :: "rat \<Rightarrow> int" where
  \<comment> \<open>the Go conversions \<^verbatim>\<open>int64(v)\<close> and \<^verbatim>\<open>int(v)\<close> of a \<^verbatim>\<open>float64\<close> on a 64-bit platform:
      the fraction is dropped; a value out of range has no portable result, and amd64 gives the
      least \<^verbatim>\<open>int64\<close>\<close>
  "int64_of_float64 v =
     (let t = toward_zero v in if - (2 ^ 63) \<le> t \<and> t < 2 ^ 63 then t else - (2 ^ 63))"

definition wrap64 :: "int \<Rightarrow> int" where
  \<comment> \<open>the value of an \<^verbatim>\<open>int64\<close> after an arithmetic operation: two's complement wrap-around\<close>
  "wrap64 x = (x + 2 ^ 63) mod 2 ^ 64 - 2 ^ 63"

definition quo :: "int \<Rightarrow> int \<Rightarrow> int" where
  \<comment> \<open>Go's integer division \<^verbatim>\<open>x / y\<close> truncates toward zero\<close>
  "quo x y = (if (x < 0) = (y < 0) then \<bar>x\<bar> div \<bar>y\<bar> else - (\<bar>x\<bar> div \<bar>y\<bar>))"

section \<open>The libdns record and relative names\<close>

text \<open>
  \<^verbatim>\<open>time.Duration\<close> is an \<^verbatim>\<open>int64\<close> count of nanoseconds; it is an \<^typ>\<open>int\<close> here, and
  \<open>wrap64\<close> is written where the package multiplies one.
\<close>

type_synonym Duration = int

definition Second :: Duration where
  "Second = 1000000000"

text \<open>
  \<^verbatim>\<open>libdns.RR\<close>, the provider-agnostic record. \<^verbatim>\<open>libdns.Record\<close> is an interface whose
  method \<^verbatim>\<open>RR()\<close> gives this struct; an input record is modelled by the struct it gives.
\<close>

record RR =
  rrName :: string
  rrTTL :: Duration
  rrType :: string
  rrData :: string

text \<open>
  Modelled from the spec: \<^verbatim>\<open>libdns.RelativeName\<close> belongs to the libdns module, which is
  imported by the package and is not among its sources. The spec calls it the standard
  zone-relative-naming rule: strip the zone suffix, leaving the label chain; an empty result
  means the apex. The libdns function ignores one trailing dot of either argument, strips the
  zone and the dot before it, and answers \<open>@\<close> when nothing is left of a non-empty name in a
  non-empty zone.
\<close>

definition RelativeName :: "string \<Rightarrow> string \<Rightarrow> string" where
  "RelativeName fqdn zone =
     (let rel = TrimSuffix (TrimSuffix (TrimSuffix fqdn ''.'') (TrimSuffix zone ''.'')) ''.''
      in if rel = [] \<and> fqdn \<noteq> [] \<and> zone \<noteq> [] then ''@'' else rel)"

section \<open>models.go: the provider's records\<close>

text \<open>
  The fields \<^verbatim>\<open>ID\<close> and \<^verbatim>\<open>TTL\<close> are \<^verbatim>\<open>interface{}\<close>: the value carries its dynamic type.
  The JSON decoder stores \<^verbatim>\<open>nil\<close>, a \<^verbatim>\<open>bool\<close>, a \<^verbatim>\<open>float64\<close> (every JSON number; a finite
  \<^verbatim>\<open>float64\<close> is a rational) or a \<^verbatim>\<open>string\<close>, and an array or object, kept here by the text
  that \<^verbatim>\<open>%v\<close> prints for it. \<^verbatim>\<open>SetRecords\<close> also stores a Go \<^verbatim>\<open>int\<close>.
\<close>

datatype any =
  NilValue | BoolValue bool | Float64Value rat | StringValue string | IntValue int
  | CompositeValue string

record omglolRecord =
  ID :: any
  Type :: string
  Name :: string
  Data :: string
  Priority :: "int option"
  TTL :: any

text \<open>\<^verbatim>\<open>omglolRecordPayload\<close>, the JSON body of create and update requests.\<close>

record omglolRecordPayload =
  pType :: string
  pName :: string
  pData :: string
  pTTL :: int

definition recordID :: "omglolRecord \<Rightarrow> string" where
  "recordID r =
     (case ID r of
        Float64Value v \<Rightarrow> FormatInt (int64_of_float64 v)
      | StringValue v \<Rightarrow> v
      | NilValue \<Rightarrow> ''<nil>''
      | BoolValue b \<Rightarrow> (if b then ''true'' else ''false'')
      | IntValue i \<Rightarrow> FormatInt i
      | CompositeValue shown \<Rightarrow> shown)"

definition ttlSeconds :: "omglolRecord \<Rightarrow> int" where
  "ttlSeconds r =
     (case TTL r of
        Float64Value v \<Rightarrow> int64_of_float64 v
      | StringValue v \<Rightarrow> (case Atoi v of None \<Rightarrow> 3600 | Some n \<Rightarrow> n)
      | NilValue \<Rightarrow> 3600
      | BoolValue b \<Rightarrow> 3600
      | IntValue i \<Rightarrow> 3600
      | CompositeValue shown \<Rightarrow> 3600)"

definition toRelativeName :: "string \<Rightarrow> string \<Rightarrow> string" where
  \<comment> \<open>the name computed by \<^verbatim>\<open>toLibdnsRecord\<close> (models.go, lines 92 to 95)\<close>
  "toRelativeName providerName zone =
     (let name = RelativeName (providerName @ ''.'' @ TrimSuffix zone ''.'') zone
      in if name = [] then ''@'' else name)"

definition toLibdnsRecord :: "omglolRecord \<Rightarrow> string \<Rightarrow> RR" where
  "toLibdnsRecord r zone =
     (let ttl = wrap64 (ttlSeconds r * Second)
      in \<lparr>rrName = toRelativeName (Name r) zone, rrTTL = ttl, rrType = Type r, rrData = Data r\<rparr>)"

section \<open>client.go: the payload and the four requests\<close>

definition address :: "string \<Rightarrow> string" where
  \<comment> \<open>\<^verbatim>\<open>strings.SplitN(strings.TrimSuffix(zone, "."), ".", 2)[0]\<close>\<close>
  "address zone = firstLabel (TrimSuffix zone ''.'')"

definition toProviderName :: "string \<Rightarrow> string \<Rightarrow> string" where
  \<comment> \<open>the \<^verbatim>\<open>switch relativeName\<close> of \<^verbatim>\<open>libdnsRecordToPayload\<close> (client.go, lines 183 to 189)\<close>
  "toProviderName relativeName addr =
     (if relativeName = ''@'' \<or> relativeName = [] then addr else relativeName)"

definition libdnsRecordToPayload :: "RR \<Rightarrow> string \<Rightarrow> omglolRecordPayload" where
  "libdnsRecordToPayload rr zone =
     (let ttl = quo (rrTTL rr) Second;
          ttl = (if ttl \<le> 0 then 300 else ttl);
          relativeName = RelativeName (rrName rr) zone;
          omglolName = toProviderName relativeName (address zone)
      in \<lparr>pType = rrType rr, pName = omglolName, pData = rrData rr, pTTL = ttl\<rparr>)"

text \<open>
  The four request functions of client.go make one HTTP round trip each; a transport failure,
  a status other than 200, a body that does not parse and an envelope whose success flag is
  false are their errors.
\<close>

datatype error =
  Transport string | Status int string | Unparsable string | Unsuccessful string

text \<open>
  The server and the transport are outside the package. They are a parameter of the model: a
  store of four transition functions over a state \<open>'s\<close> of the outside world, one for each
  request function, taking the address of the request path (\<^verbatim>\<open>p.Address\<close>) first. A request
  that returns an error is \<open>Inl\<close> (or \<open>Some\<close> for the two that return only an error).
\<close>

record 's store =
  listRecords :: "string \<Rightarrow> 's \<Rightarrow> (error + omglolRecord list) \<times> 's"
  createRecord :: "string \<Rightarrow> omglolRecordPayload \<Rightarrow> 's \<Rightarrow> (error + omglolRecord) \<times> 's"
  updateRecord :: "string \<Rightarrow> string \<Rightarrow> omglolRecordPayload \<Rightarrow> 's \<Rightarrow> error option \<times> 's"
  deleteRecord :: "string \<Rightarrow> string \<Rightarrow> 's \<Rightarrow> error option \<times> 's"

section \<open>provider.go: the four operations\<close>

record Provider =
  APIKey :: string
  Address :: string

definition namesMatch :: "string \<Rightarrow> string \<Rightarrow> string \<Rightarrow> bool" where
  "namesMatch apiName payloadName zone =
     (let zoneNoSuffix = TrimSuffix zone ''.'';
          addr = firstLabel zoneNoSuffix;
          apiLabel = TrimSuffix apiName (''.'' @ addr);
          apiLabel = (if apiLabel = addr then addr else apiLabel)
      in EqualFold apiLabel payloadName \<or> EqualFold apiName payloadName)"

text \<open>
  An operation returns a list of records and an error, both meaningful at once; the result is
  the pair of the list and the optional error, with the state of the outside world after the
  last request.
\<close>

definition GetRecords ::
  "'s store \<Rightarrow> Provider \<Rightarrow> string \<Rightarrow> 's \<Rightarrow> (RR list \<times> error option) \<times> 's" where
  "GetRecords api p zone s =
     (case listRecords api (Address p) s of
        (Inl err, s') \<Rightarrow> (([], Some err), s')
      | (Inr raw, s') \<Rightarrow> ((map (\<lambda>r. toLibdnsRecord r zone) raw, None), s'))"

text \<open>The loop of \<^verbatim>\<open>AppendRecords\<close>, from the records created so far.\<close>

fun appendLoop ::
  "'s store \<Rightarrow> Provider \<Rightarrow> string \<Rightarrow> RR list \<Rightarrow> RR list \<Rightarrow> 's \<Rightarrow> (RR list \<times> error option) \<times> 's" where
  "appendLoop api p zone created [] s = ((created, None), s)"
| "appendLoop api p zone created (rec # records) s =
     (let payload = libdnsRecordToPayload rec zone
      in case createRecord api (Address p) payload s of
           (Inl err, s') \<Rightarrow> ((created, Some err), s')
         | (Inr result, s') \<Rightarrow>
             appendLoop api p zone (created @ [toLibdnsRecord result zone]) records s')"

definition AppendRecords ::
  "'s store \<Rightarrow> Provider \<Rightarrow> string \<Rightarrow> RR list \<Rightarrow> 's \<Rightarrow> (RR list \<times> error option) \<times> 's" where
  "AppendRecords api p zone records s = appendLoop api p zone [] records s"

text \<open>
  The loop of \<^verbatim>\<open>SetRecords\<close> over the input records, from the results so far. The inner
  loop with its \<^verbatim>\<open>break\<close> is \<^const>\<open>find\<close>: the first existing record that matches.
\<close>

fun setLoop ::
  "'s store \<Rightarrow> Provider \<Rightarrow> string \<Rightarrow> omglolRecord list \<Rightarrow> RR list \<Rightarrow> RR list \<Rightarrow> 's
     \<Rightarrow> (RR list \<times> error option) \<times> 's" where
  "setLoop api p zone existing results [] s = ((results, None), s)"
| "setLoop api p zone existing results (rec # records) s =
     (let rr = rec;
          payload = libdnsRecordToPayload rec zone
      in case find (\<lambda>e. EqualFold (Type e) (rrType rr) \<and> namesMatch (Name e) (pName payload) zone)
                existing of
           Some matched \<Rightarrow>
             (let id = recordID matched
              in case updateRecord api (Address p) id payload s of
                   (Some err, s') \<Rightarrow> ((results, Some err), s')
                 | (None, s') \<Rightarrow>
                     (let updated = \<lparr>ID = ID matched, Type = pType payload, Name = pName payload,
                                     Data = pData payload, Priority = None,
                                     TTL = IntValue (pTTL payload)\<rparr>
                      in setLoop api p zone existing (results @ [toLibdnsRecord updated zone])
                           records s'))
         | None \<Rightarrow>
             (case createRecord api (Address p) payload s of
                (Inl err, s') \<Rightarrow> ((results, Some err), s')
              | (Inr created, s') \<Rightarrow>
                  setLoop api p zone existing (results @ [toLibdnsRecord created zone])
                    records s'))"

definition SetRecords ::
  "'s store \<Rightarrow> Provider \<Rightarrow> string \<Rightarrow> RR list \<Rightarrow> 's \<Rightarrow> (RR list \<times> error option) \<times> 's" where
  "SetRecords api p zone records s =
     (case listRecords api (Address p) s of
        (Inl err, s') \<Rightarrow> (([], Some err), s')
      | (Inr existing, s') \<Rightarrow> setLoop api p zone existing [] records s')"

text \<open>
  The inner loop of \<^verbatim>\<open>DeleteRecords\<close> over the existing records, for one input record;
  each \<^verbatim>\<open>continue\<close> goes on with the rest of the list, and the \<^verbatim>\<open>return\<close> inside leaves
  the operation with the error.
\<close>

fun deleteMatching ::
  "'s store \<Rightarrow> Provider \<Rightarrow> string \<Rightarrow> RR \<Rightarrow> omglolRecordPayload \<Rightarrow> RR list
     \<Rightarrow> omglolRecord list \<Rightarrow> 's \<Rightarrow> (RR list \<times> error option) \<times> 's" where
  "deleteMatching api p zone rr payload deleted [] s = ((deleted, None), s)"
| "deleteMatching api p zone rr payload deleted (e # existing) s =
     (if \<not> EqualFold (Type e) (rrType rr) then
        deleteMatching api p zone rr payload deleted existing s
      else if \<not> namesMatch (Name e) (pName payload) zone then
        deleteMatching api p zone rr payload deleted existing s
      else if rrData rr \<noteq> [] \<and> Data e \<noteq> rrData rr then
        deleteMatching api p zone rr payload deleted existing s
      else
        (let id = recordID e
         in case deleteRecord api (Address p) id s of
              (Some err, s') \<Rightarrow> ((deleted, Some err), s')
            | (None, s') \<Rightarrow>
                deleteMatching api p zone rr payload (deleted @ [toLibdnsRecord e zone])
                  existing s'))"

fun deleteLoop ::
  "'s store \<Rightarrow> Provider \<Rightarrow> string \<Rightarrow> omglolRecord list \<Rightarrow> RR list \<Rightarrow> RR list \<Rightarrow> 's
     \<Rightarrow> (RR list \<times> error option) \<times> 's" where
  "deleteLoop api p zone existing deleted [] s = ((deleted, None), s)"
| "deleteLoop api p zone existing deleted (rec # records) s =
     (let rr = rec;
          payload = libdnsRecordToPayload rec zone
      in case deleteMatching api p zone rr payload deleted existing s of
           ((deleted', Some err), s') \<Rightarrow> ((deleted', Some err), s')
         | ((deleted', None), s') \<Rightarrow> deleteLoop api p zone existing deleted' records s')"

definition DeleteRecords ::
  "'s store \<Rightarrow> Provider \<Rightarrow> string \<Rightarrow> RR list \<Rightarrow> 's \<Rightarrow> (RR list \<times> error option) \<times> 's" where
  "DeleteRecords api p zone records s =
     (case listRecords api (Address p) s of
        (Inl err, s') \<Rightarrow> (([], Some err), s')
      | (Inr existing, s') \<Rightarrow> deleteLoop api p zone existing [] records s')"

section \<open>Observing the requests\<close>

text \<open>
  The requests an operation issues are observed by a store that keeps a log: \<open>traced api\<close>
  answers as \<open>api\<close> does and appends each request to the log it carries in its state.
\<close>

datatype call =
  ListCall string
  | CreateCall string omglolRecordPayload
  | UpdateCall string string omglolRecordPayload
  | DeleteCall string string

definition traced :: "'s store \<Rightarrow> ('s \<times> call list) store" where
  "traced api =
     \<lparr>listRecords = (\<lambda>a (s, calls). case listRecords api a s of
                        (r, s') \<Rightarrow> (r, (s', calls @ [ListCall a]))),
      createRecord = (\<lambda>a payload (s, calls). case createRecord api a payload s of
                        (r, s') \<Rightarrow> (r, (s', calls @ [CreateCall a payload]))),
      updateRecord = (\<lambda>a i payload (s, calls). case updateRecord api a i payload s of
                        (r, s') \<Rightarrow> (r, (s', calls @ [UpdateCall a i payload]))),
      deleteRecord = (\<lambda>a i (s, calls). case deleteRecord api a i s of
                        (r, s') \<Rightarrow> (r, (s', calls @ [DeleteCall a i])))\<rparr>"

text \<open>
  A server for concrete scenarios, without a state of its own: it lists the given records,
  answers a create request with the record of the payload under the identifier 100, and
  fails exactly the requests that \<open>bad\<close> names, with status 500.
\<close>

definition serverError :: error where
  "serverError = Status 500 ''Internal Server Error''"

definition fixedServer :: "omglolRecord list \<Rightarrow> (call \<Rightarrow> bool) \<Rightarrow> unit store" where
  "fixedServer existing bad =
     \<lparr>listRecords = (\<lambda>a s. if bad (ListCall a) then (Inl serverError, s) else (Inr existing, s)),
      createRecord = (\<lambda>a payload s.
         if bad (CreateCall a payload) then (Inl serverError, s)
         else (Inr \<lparr>ID = Float64Value 100, Type = pType payload, Name = pName payload,
                    Data = pData payload, Priority = None,
                    TTL = Float64Value (of_int (pTTL payload))\<rparr>, s)),
      updateRecord = (\<lambda>a i payload s.
         if bad (UpdateCall a i payload) then (Some serverError, s) else (None, s)),
      deleteRecord = (\<lambda>a i s.
         if bad (DeleteCall a i) then (Some serverError, s) else (None, s))\<rparr>"

text \<open>
  The inputs of the scenarios below: the provider of the address \<open>g\<close> and one whose address
  the server does not answer, TXT records with a TTL of 300 seconds, stored records as the
  server lists them, and the requests that the failing server refuses.
\<close>

definition provider_g :: Provider where
  "provider_g = \<lparr>APIKey = ''key'', Address = ''g''\<rparr>"

definition provider_down :: Provider where
  "provider_down = \<lparr>APIKey = ''key'', Address = ''down''\<rparr>"

definition txtRecord :: "string \<Rightarrow> string \<Rightarrow> RR" where
  "txtRecord n d = \<lparr>rrName = n, rrTTL = 300 * Second, rrType = ''TXT'', rrData = d\<rparr>"

definition stored :: "rat \<Rightarrow> string \<Rightarrow> string \<Rightarrow> string \<Rightarrow> omglolRecord" where
  "stored i t n d =
     \<lparr>ID = Float64Value i, Type = t, Name = n, Data = d, Priority = None,
      TTL = Float64Value 3600\<rparr>"

fun refused :: "call \<Rightarrow> bool" where
  "refused (ListCall a) = (a = ''down'')"
| "refused (CreateCall a payload) = (pData payload = ''bad'')"
| "refused (UpdateCall a i payload) = (pData payload = ''bad'')"
| "refused (DeleteCall a i) = (i = ''2'')"

section \<open>What the spec says Delete selects\<close>

text \<open>
  The spec's words for the records that Delete removes for one input record: the existing
  records whose type matches without regard to case and whose name matches by \<open>namesMatch\<close>
  and, when the input record has data, whose data is exactly the same.
\<close>

definition spec_selected :: "string \<Rightarrow> RR \<Rightarrow> omglolRecord \<Rightarrow> bool" where
  "spec_selected zone rr e =
     (EqualFold (Type e) (rrType rr)
      \<and> namesMatch (Name e) (pName (libdnsRecordToPayload rr zone)) zone
      \<and> (rrData rr = [] \<or> Data e = rrData rr))"

section \<open>Strings and names\<close>

lemma TrimSuffix_append: "TrimSuffix (a @ b) b = a"
  by (simp add: TrimSuffix_def HasSuffix_def)

lemma TrimSuffix_dot_unchanged:
  "s \<noteq> [] \<Longrightarrow> last s \<noteq> CHR ''.'' \<Longrightarrow> TrimSuffix s ''.'' = s"
  by (cases s rule: rev_cases) (auto simp add: TrimSuffix_def HasSuffix_def)

text \<open>
  A name put in front of a zone comes back unchanged: the zone, without its trailing dot, is
  the suffix that \<open>RelativeName\<close> strips.
\<close>

lemma RelativeName_under_zone:
  assumes "n \<noteq> []" and "TrimSuffix z ''.'' \<noteq> []" and "last (TrimSuffix z ''.'') \<noteq> CHR ''.''"
  shows "RelativeName (n @ CHR ''.'' # TrimSuffix z ''.'') z = n"
proof -
  define zn where "zn = TrimSuffix z ''.''"
  define fqdn where "fqdn = n @ ''.'' @ zn"
  have zn: "zn \<noteq> []" "last zn \<noteq> CHR ''.''"
    using assms by (simp_all add: zn_def)
  have "fqdn \<noteq> []" "last fqdn \<noteq> CHR ''.''"
    using zn by (simp_all add: fqdn_def)
  then have a: "TrimSuffix fqdn ''.'' = fqdn"
    by (rule TrimSuffix_dot_unchanged)
  have "fqdn = (n @ ''.'') @ zn"
    by (simp add: fqdn_def)
  then have b: "TrimSuffix fqdn zn = n @ ''.''"
    by (simp only: TrimSuffix_append)
  have c: "TrimSuffix (n @ ''.'') ''.'' = n"
    by (rule TrimSuffix_append)
  have "RelativeName fqdn z = n"
    unfolding RelativeName_def zn_def [symmetric] a b c using assms(1) by simp
  then show ?thesis
    by (simp add: fqdn_def zn_def)
qed

text \<open>
  C4. A zone is a fully-qualified domain name: what is left of it without the trailing dot is
  not empty and does not end in a dot. For every such zone \<open>z\<close> and every name \<open>n\<close> other than
  the apex markers \<open>@\<close> and the empty string, the provider name of \<open>n\<close> under the address of
  \<open>z\<close>, converted back to a name relative to \<open>z\<close>, is \<open>n\<close>.
\<close>

theorem name_roundtrip:
  assumes "n \<noteq> ''@''" and "n \<noteq> []"
    and "TrimSuffix z ''.'' \<noteq> []" and "last (TrimSuffix z ''.'') \<noteq> CHR ''.''"
  shows "toRelativeName (toProviderName n (address z)) z = n"
  using assms by (simp add: toRelativeName_def toProviderName_def RelativeName_under_zone)

theorem name_roundtrip_witness:
  "toRelativeName (toProviderName ''_acme-challenge'' (address ''g.omg.lol.'')) ''g.omg.lol.''
     = ''_acme-challenge''"
proof -
  have 1: "''_acme-challenge'' \<noteq> ''@''" by simp
  have 2: "''_acme-challenge'' \<noteq> []" by simp
  have 3: "TrimSuffix ''g.omg.lol.'' ''.'' \<noteq> []" by code_simp
  have 4: "last (TrimSuffix ''g.omg.lol.'' ''.'') \<noteq> CHR ''.''" by code_simp
  show ?thesis by (rule name_roundtrip [OF 1 2 3 4])
qed

text \<open>
  The same round trip through the payload of a record: when the record's name is already
  relative to the zone, the name that \<open>toLibdnsRecord\<close> gives to a provider record carrying
  the payload's name is the record's name.
\<close>

lemma payload_name_roundtrip:
  assumes "rrName rr \<noteq> ''@''" and "rrName rr \<noteq> []"
    and "RelativeName (rrName rr) z = rrName rr"
    and "TrimSuffix z ''.'' \<noteq> []" and "last (TrimSuffix z ''.'') \<noteq> CHR ''.''"
  shows "rrName (toLibdnsRecord (r\<lparr>Name := pName (libdnsRecordToPayload rr z)\<rparr>) z) = rrName rr"
  using assms
  by (simp add: toLibdnsRecord_def libdnsRecordToPayload_def toRelativeName_def
      toProviderName_def RelativeName_under_zone Let_def)

text \<open>
  The address of a zone is not turned into the apex marker: under a zone that is a
  fully-qualified name with a first label, the address comes back as it is.
\<close>

lemma address_comes_back:
  assumes "address z \<noteq> []"
    and "TrimSuffix z ''.'' \<noteq> []" and "last (TrimSuffix z ''.'') \<noteq> CHR ''.''"
  shows "toRelativeName (address z) z = address z"
  using assms by (simp add: toRelativeName_def RelativeName_under_zone)

text \<open>
  C2. The spec says that the bare address, the provider's name of the apex, converts back to
  the apex marker \<open>@\<close>. The comment in \<open>toLibdnsRecord\<close> says the same of the code: the
  provider's names include the address label, \<open>g\<close> being the apex of \<open>g.omg.lol.\<close>, and libdns
  wants the name relative to the zone. The code puts the whole zone behind the provider's name
  and strips it again, so the address label stays: for the zone \<open>g.omg.lol.\<close> the name \<open>g\<close>
  comes back as \<open>g\<close>, and listing an apex record gives a record named \<open>g\<close>.
\<close>

theorem apex_name_scenario:
  "address ''g.omg.lol.'' = ''g''
   \<and> toRelativeName (address ''g.omg.lol.'') ''g.omg.lol.'' = ''g''
   \<and> fst (GetRecords
        (fixedServer
           [\<lparr>ID = Float64Value 7, Type = ''A'', Name = ''g'', Data = ''192.0.2.1'',
             Priority = None, TTL = Float64Value 3600\<rparr>] (\<lambda>c. False))
        \<lparr>APIKey = ''key'', Address = ''g''\<rparr> ''g.omg.lol.'' ())
     = ([\<lparr>rrName = ''g'', rrTTL = 3600 * Second, rrType = ''A'', rrData = ''192.0.2.1''\<rparr>], None)"
  by code_simp

section \<open>Matching names\<close>

text \<open>
  C3, as the spec states it, makes a candidate label that equals the address a match by
  itself. The code's branch for that case assigns the label to itself and decides nothing: the
  provider name \<open>g\<close> of the zone \<open>g.omg.lol.\<close> has the candidate label \<open>g\<close>, the address, and
  does not match the name \<open>foo\<close>. Nor is every comparison blind to case: the suffix is
  stripped by exact comparison, so \<open>acme.g\<close> matches \<open>acme\<close> and \<open>acme.G\<close> does not.
\<close>

theorem namesMatch_apex_counterexample:
  "TrimSuffix ''g'' (''.'' @ address ''g.omg.lol.'') = address ''g.omg.lol.''
   \<and> \<not> namesMatch ''g'' ''foo'' ''g.omg.lol.''
   \<and> EqualFold ''acme.G'' ''acme.g''
   \<and> namesMatch ''acme.g'' ''acme'' ''g.omg.lol.''
   \<and> \<not> namesMatch ''acme.G'' ''acme'' ''g.omg.lol.''"
  by code_simp

lemma EqualFold_sym_trans:
  "EqualFold r r' \<Longrightarrow> EqualFold x r = EqualFold x r'"
  by (simp add: EqualFold_def)

lemma namesMatch_example: "namesMatch ''ACME.g'' ''acme'' ''g.omg.lol.''"
  by code_simp

text \<open>
  C3, amended. \<open>namesMatch\<close> strips the suffix made of a dot and the zone's first label from
  the provider name, and matches exactly when the stripped label or the provider name as it
  is equals the relative name without regard to case; a label that equals the address is
  compared like any other. Relative names that differ only in case are matched alike, and
  \<open>ACME.g\<close> matches \<open>acme\<close> in the zone \<open>g.omg.lol.\<close>.
\<close>

theorem namesMatch_rule:
  "namesMatch providerName relativeName zone =
     (EqualFold (TrimSuffix providerName (''.'' @ address zone)) relativeName
      \<or> EqualFold providerName relativeName)
   \<and> (EqualFold relativeName relativeName' \<longrightarrow>
        namesMatch providerName relativeName zone = namesMatch providerName relativeName' zone)
   \<and> namesMatch ''ACME.g'' ''acme'' ''g.omg.lol.''"
  using namesMatch_example
  by (simp add: namesMatch_def address_def Let_def EqualFold_sym_trans)

theorem namesMatch_rule_witness:
  "EqualFold ''acme'' ''AcMe''
   \<and> namesMatch ''ACME.g'' ''acme'' ''g.omg.lol.'' = namesMatch ''ACME.g'' ''AcMe'' ''g.omg.lol.''
   \<and> namesMatch ''ACME.g'' ''acme'' ''g.omg.lol.''"
proof -
  have h: "EqualFold ''acme'' ''AcMe''" by code_simp
  from namesMatch_rule [of "''ACME.g''" "''acme''" "''g.omg.lol.''" "''AcMe''"] h
  show ?thesis by blast
qed

section \<open>Time to live\<close>

lemma Atoi_120: "Atoi ''120'' = Some 120"
  by code_simp

text \<open>
  C8. The TTL of a provider record is read as a count of seconds: the string \<open>120\<close> is 120
  seconds, in the record's value and in the listed record; a string that \<open>Atoi\<close> parses is
  its number and one that it rejects is 3600; a number is its integer part; every other shape
  of value is 3600. \<open>GetRecords\<close> gives each listed record that count of seconds as its TTL.
\<close>

theorem ttl_coercion:
  "ttlSeconds (r\<lparr>TTL := StringValue ''120''\<rparr>) = 120
   \<and> rrTTL (toLibdnsRecord (r\<lparr>TTL := StringValue ''120''\<rparr>) zone) = 120 * Second
   \<and> (Atoi v = Some n \<longrightarrow> ttlSeconds (r\<lparr>TTL := StringValue v\<rparr>) = n)
   \<and> (Atoi v = None \<longrightarrow> ttlSeconds (r\<lparr>TTL := StringValue v\<rparr>) = 3600)
   \<and> (- (2 ^ 63) \<le> toward_zero q \<and> toward_zero q < 2 ^ 63 \<longrightarrow>
        ttlSeconds (r\<lparr>TTL := Float64Value q\<rparr>) = toward_zero q)
   \<and> ttlSeconds (r\<lparr>TTL := NilValue\<rparr>) = 3600
   \<and> ttlSeconds (r\<lparr>TTL := BoolValue b\<rparr>) = 3600
   \<and> ttlSeconds (r\<lparr>TTL := IntValue i\<rparr>) = 3600
   \<and> ttlSeconds (r\<lparr>TTL := CompositeValue shown\<rparr>) = 3600
   \<and> (listRecords api (Address p) s = (Inr raw, s') \<longrightarrow>
        map rrTTL (fst (fst (GetRecords api p zone s))) =
          map (\<lambda>e. wrap64 (ttlSeconds e * Second)) raw)"
  by (simp add: ttlSeconds_def Atoi_120 toLibdnsRecord_def wrap64_def Second_def
      int64_of_float64_def GetRecords_def Let_def)

theorem ttl_coercion_witness:
  "Atoi ''0042'' = Some 42
   \<and> ttlSeconds (\<lparr>ID = NilValue, Type = ''A'', Name = ''g'', Data = ''d'', Priority = None,
        TTL = NilValue\<rparr>\<lparr>TTL := StringValue ''0042''\<rparr>) = 42
   \<and> Atoi ''2 minutes'' = None
   \<and> ttlSeconds (\<lparr>ID = NilValue, Type = ''A'', Name = ''g'', Data = ''d'', Priority = None,
        TTL = NilValue\<rparr>\<lparr>TTL := StringValue ''2 minutes''\<rparr>) = 3600
   \<and> ttlSeconds (\<lparr>ID = NilValue, Type = ''A'', Name = ''g'', Data = ''d'', Priority = None,
        TTL = NilValue\<rparr>\<lparr>TTL := Float64Value (241 / 2)\<rparr>) = 120
   \<and> map rrTTL (fst (fst (GetRecords
        (fixedServer [\<lparr>ID = NilValue, Type = ''A'', Name = ''g'', Data = ''d'', Priority = None,
           TTL = StringValue ''120''\<rparr>] (\<lambda>c. False))
        \<lparr>APIKey = ''key'', Address = ''g''\<rparr> ''g.omg.lol.'' ()))) = [120 * Second]"
proof -
  let ?r = "\<lparr>ID = NilValue, Type = ''A'', Name = ''g'', Data = ''d'', Priority = None,
        TTL = NilValue\<rparr>"
  have a: "Atoi ''0042'' = Some 42" by code_simp
  have b: "Atoi ''2 minutes'' = None" by code_simp
  have c: "- (2 ^ 63) \<le> toward_zero (241 / 2) \<and> toward_zero (241 / 2) < 2 ^ 63" by code_simp
  have t: "toward_zero (241 / 2) = 120" by code_simp
  have l: "listRecords (fixedServer [\<lparr>ID = NilValue, Type = ''A'', Name = ''g'', Data = ''d'', Priority = None,
           TTL = StringValue ''120''\<rparr>] (\<lambda>c. False)) (Address \<lparr>APIKey = ''key'', Address = ''g''\<rparr>) ()
     = (Inr [\<lparr>ID = NilValue, Type = ''A'', Name = ''g'', Data = ''d'', Priority = None,
           TTL = StringValue ''120''\<rparr>], ())"
    by (simp add: fixedServer_def)
  have w: "wrap64 (120 * Second) = 120 * Second" by (simp add: wrap64_def Second_def)
  show ?thesis
    using ttl_coercion [of ?r "''g.omg.lol.''" "''0042''" 42 "241 / 2" True 0 "[]"
        "fixedServer [\<lparr>ID = NilValue, Type = ''A'', Name = ''g'', Data = ''d'', Priority = None,
           TTL = StringValue ''120''\<rparr>] (\<lambda>c. False)" "\<lparr>APIKey = ''key'', Address = ''g''\<rparr>" "()"
        "[\<lparr>ID = NilValue, Type = ''A'', Name = ''g'', Data = ''d'', Priority = None,
           TTL = StringValue ''120''\<rparr>]" "()"]
      ttl_coercion [of ?r "''g.omg.lol.''" "''2 minutes''" 42 "241 / 2" True 0 "[]"
        "fixedServer [] (\<lambda>c. False)" "\<lparr>APIKey = ''key'', Address = ''g''\<rparr>" "()" "[]" "()"]
      a b c t l w
    by (simp add: ttlSeconds_def Atoi_120)
qed

text \<open>
  C9, as the spec states it, gives every positive TTL its whole seconds in the payload. The
  TTL is a duration in nanoseconds, and the code replaces the count of whole seconds when it is
  not positive: half a second is positive, has zero whole seconds, and the payload carries 300.
\<close>

theorem payload_ttl_counterexample:
  "(0::int) < 500000000
   \<and> quo 500000000 Second = 0
   \<and> pTTL (libdnsRecordToPayload
        \<lparr>rrName = ''www'', rrTTL = 500000000, rrType = ''A'', rrData = ''192.0.2.1''\<rparr>
        ''g.omg.lol.'') = 300"
  by code_simp

text \<open>
  C9, amended. For every input record whose TTL is less than one second (zero, negative, or a
  positive fraction of a second) the payload carries a TTL of 300 seconds; for every input
  record whose TTL is one second or more, the payload's TTL is the input TTL in whole seconds.
\<close>

theorem payload_ttl:
  "(rrTTL rr < Second \<longrightarrow> pTTL (libdnsRecordToPayload rr zone) = 300)
   \<and> (Second \<le> rrTTL rr \<longrightarrow> pTTL (libdnsRecordToPayload rr zone) = rrTTL rr div Second)"
proof -
  have 1: "quo (rrTTL rr) Second \<le> 0" if "rrTTL rr < Second"
    using that by (auto simp: quo_def Second_def)
  have 2: "quo (rrTTL rr) Second = rrTTL rr div Second" if "Second \<le> rrTTL rr"
    using that by (auto simp: quo_def Second_def)
  have 3: "0 < rrTTL rr div Second" if "Second \<le> rrTTL rr"
    using that by (simp add: Second_def pos_imp_zdiv_pos_iff)
  show ?thesis
    using 1 2 3 by (auto simp: libdnsRecordToPayload_def Let_def)
qed

theorem payload_ttl_witness:
  "pTTL (libdnsRecordToPayload \<lparr>rrName = ''www'', rrTTL = 0, rrType = ''A'', rrData = ''d''\<rparr> ''g.omg.lol.'') = 300
   \<and> pTTL (libdnsRecordToPayload \<lparr>rrName = ''www'', rrTTL = - (5 * Second), rrType = ''A'', rrData = ''d''\<rparr> ''g.omg.lol.'') = 300
   \<and> pTTL (libdnsRecordToPayload \<lparr>rrName = ''www'', rrTTL = 1500000000, rrType = ''A'', rrData = ''d''\<rparr> ''g.omg.lol.'') = 1"
proof -
  have a: "(0::int) < Second" "- (5 * Second) < Second" "Second \<le> 1500000000" "1500000000 div Second = 1"
    by (simp_all add: Second_def)
  show ?thesis
    using payload_ttl [of "\<lparr>rrName = ''www'', rrTTL = 0, rrType = ''A'', rrData = ''d''\<rparr>" "''g.omg.lol.''"]
      payload_ttl [of "\<lparr>rrName = ''www'', rrTTL = - (5 * Second), rrType = ''A'', rrData = ''d''\<rparr>" "''g.omg.lol.''"]
      payload_ttl [of "\<lparr>rrName = ''www'', rrTTL = 1500000000, rrType = ''A'', rrData = ''d''\<rparr>" "''g.omg.lol.''"]
      a by simp
qed

section \<open>Set on an existing record\<close>

text \<open>
  C1. The scenario of the spec: the zone \<open>g.omg.lol.\<close>, the existing record with identifier 1,
  type \<open>TXT\<close>, name \<open>_acme-challenge.g\<close> and data \<open>old\<close>, and the input record
  \<open>_acme-challenge\<close>, \<open>TXT\<close>, \<open>new\<close> with a TTL of 300 seconds. The code lists, issues the one
  update request the spec expects and no create request, and returns one record with the
  payload's name, type and data. Its TTL is 3600 seconds, not the payload's 300: the payload's
  TTL is stored as a Go \<^verbatim>\<open>int\<close>, which \<open>ttlSeconds\<close> has no case for.
\<close>

theorem SetRecords_scenario_ttl:
  "SetRecords
     (traced (fixedServer
        [\<lparr>ID = Float64Value 1, Type = ''TXT'', Name = ''_acme-challenge.g'', Data = ''old'',
          Priority = None, TTL = NilValue\<rparr>] (\<lambda>c. False)))
     \<lparr>APIKey = ''key'', Address = ''g''\<rparr> ''g.omg.lol.''
     [\<lparr>rrName = ''_acme-challenge'', rrTTL = 300 * Second, rrType = ''TXT'', rrData = ''new''\<rparr>]
     ((), [])
   = (([\<lparr>rrName = ''_acme-challenge'', rrTTL = 3600 * Second, rrType = ''TXT'',
          rrData = ''new''\<rparr>], None),
      ((), [ListCall ''g'',
            UpdateCall ''g'' ''1''
              \<lparr>pType = ''TXT'', pName = ''_acme-challenge'', pData = ''new'', pTTL = 300\<rparr>]))"
  by code_simp

section \<open>The loops, one request after another\<close>

text \<open>What the logging store answers and records, request by request.\<close>

lemma traced_list:
  "listRecords (traced api) a (s, calls) =
     (fst (listRecords api a s), (snd (listRecords api a s), calls @ [ListCall a]))"
  by (simp add: traced_def split: prod.split)

lemma traced_create:
  "createRecord (traced api) a payload (s, calls) =
     (fst (createRecord api a payload s),
      (snd (createRecord api a payload s), calls @ [CreateCall a payload]))"
  by (simp add: traced_def split: prod.split)

lemma traced_update:
  "updateRecord (traced api) a i payload (s, calls) =
     (fst (updateRecord api a i payload s),
      (snd (updateRecord api a i payload s), calls @ [UpdateCall a i payload]))"
  by (simp add: traced_def split: prod.split)

lemma traced_delete:
  "deleteRecord (traced api) a i (s, calls) =
     (fst (deleteRecord api a i s), (snd (deleteRecord api a i s), calls @ [DeleteCall a i]))"
  by (simp add: traced_def split: prod.split)

text \<open>
  A loop that has gone through a first part of its input without an error goes on with the
  rest from the results and the state it has reached.
\<close>

lemma appendLoop_append:
  "appendLoop api p zone created xs s = ((created', None), s1) \<Longrightarrow>
   appendLoop api p zone created (xs @ ys) s = appendLoop api p zone created' ys s1"
  by (induction xs arbitrary: created s) (auto simp: Let_def split: prod.splits sum.splits)

lemma setLoop_append:
  "setLoop api p zone existing results xs s = ((results', None), s1) \<Longrightarrow>
   setLoop api p zone existing results (xs @ ys) s = setLoop api p zone existing results' ys s1"
  by (induction xs arbitrary: results s)
     (auto simp: Let_def split: prod.splits sum.splits option.splits)

lemma deleteMatching_append:
  "deleteMatching api p zone rr payload deleted es1 s = ((deleted', None), s1) \<Longrightarrow>
   deleteMatching api p zone rr payload deleted (es1 @ es2) s =
     deleteMatching api p zone rr payload deleted' es2 s1"
  by (induction es1 arbitrary: deleted s)
     (auto simp: Let_def split: prod.splits option.splits)

lemma deleteLoop_append:
  "deleteLoop api p zone existing deleted xs s = ((deleted', None), s1) \<Longrightarrow>
   deleteLoop api p zone existing deleted (xs @ ys) s =
     deleteLoop api p zone existing deleted' ys s1"
  by (induction xs arbitrary: deleted s)
     (auto simp: Let_def split: prod.splits option.splits)

section \<open>Set on an empty record set\<close>

lemma setLoop_no_existing:
  "setLoop api p zone [] results records s = appendLoop api p zone results records s"
  by (induction records arbitrary: results s)
     (auto simp: Let_def split: prod.splits sum.splits)

lemma appendLoop_trace:
  "\<exists>k\<le>length records.
     snd (snd (appendLoop (traced api) p zone created records (s, calls))) =
       calls @ map (\<lambda>r. CreateCall (Address p) (libdnsRecordToPayload r zone)) (take k records)"
proof (induction records arbitrary: created s calls)
  case Nil
  then show ?case by simp
next
  case (Cons r records)
  let ?payload = "libdnsRecordToPayload r zone"
  obtain res s' where c: "createRecord api (Address p) ?payload s = (res, s')"
    by (cases "createRecord api (Address p) ?payload s")
  show ?case
  proof (cases res)
    case (Inl err)
    have "snd (snd (appendLoop (traced api) p zone created (r # records) (s, calls))) =
        calls @ map (\<lambda>r. CreateCall (Address p) (libdnsRecordToPayload r zone)) (take 1 (r # records))"
      using c Inl by (simp add: traced_create)
    then show ?thesis
      by (intro exI [of _ 1]) simp
  next
    case (Inr result)
    from Cons.IH [of "created @ [toLibdnsRecord result zone]" s' "calls @ [CreateCall (Address p) ?payload]"]
    obtain k where k: "k \<le> length records"
      "snd (snd (appendLoop (traced api) p zone (created @ [toLibdnsRecord result zone]) records
          (s', calls @ [CreateCall (Address p) ?payload]))) =
        (calls @ [CreateCall (Address p) ?payload]) @
          map (\<lambda>r. CreateCall (Address p) (libdnsRecordToPayload r zone)) (take k records)"
      by blast
    have "snd (snd (appendLoop (traced api) p zone created (r # records) (s, calls))) =
        calls @ map (\<lambda>r. CreateCall (Address p) (libdnsRecordToPayload r zone)) (take (Suc k) (r # records))"
      using c Inr k(2) by (simp add: traced_create)
    then show ?thesis
      using k(1) by (intro exI [of _ "Suc k"]) simp
  qed
qed

text \<open>
  C5. When the list request of \<open>SetRecords\<close> answers with no record, \<open>SetRecords\<close> returns
  what \<open>AppendRecords\<close> returns on the same zone and input from the state after the list
  request, and leaves the outside world in the same state. Observed through the log, the two
  issue the same requests after the list request: create requests only, one for the payload of
  each input record in order, up to the first that fails.
\<close>

theorem set_on_empty_is_append:
  assumes "listRecords api (Address p) s = (Inr [], s')"
  shows "SetRecords api p zone records s = AppendRecords api p zone records s'
    \<and> SetRecords (traced api) p zone records (s, calls) =
        AppendRecords (traced api) p zone records (s', calls @ [ListCall (Address p)])
    \<and> (\<exists>k\<le>length records.
          snd (snd (SetRecords (traced api) p zone records (s, calls))) =
            calls @ ListCall (Address p) #
              map (\<lambda>r. CreateCall (Address p) (libdnsRecordToPayload r zone)) (take k records))"
proof -
  have 1: "SetRecords api p zone records s = AppendRecords api p zone records s'"
    using assms by (simp add: SetRecords_def AppendRecords_def setLoop_no_existing)
  have 2: "SetRecords (traced api) p zone records (s, calls) =
        AppendRecords (traced api) p zone records (s', calls @ [ListCall (Address p)])"
    using assms by (simp add: SetRecords_def AppendRecords_def setLoop_no_existing traced_list)
  obtain k where "k \<le> length records"
    "snd (snd (appendLoop (traced api) p zone [] records (s', calls @ [ListCall (Address p)]))) =
       (calls @ [ListCall (Address p)]) @
         map (\<lambda>r. CreateCall (Address p) (libdnsRecordToPayload r zone)) (take k records)"
    using appendLoop_trace [of records api p zone "[]" s' "calls @ [ListCall (Address p)]"]
    by blast
  then have 3: "\<exists>k\<le>length records.
          snd (snd (SetRecords (traced api) p zone records (s, calls))) =
            calls @ ListCall (Address p) #
              map (\<lambda>r. CreateCall (Address p) (libdnsRecordToPayload r zone)) (take k records)"
    unfolding 2 AppendRecords_def by (intro exI [of _ k]) simp
  show ?thesis
    using 1 2 3 by blast
qed

theorem set_on_empty_is_append_witness:
  "SetRecords (fixedServer [] (\<lambda>c. False)) provider_g ''g.omg.lol.''
       [txtRecord ''_acme-challenge'' ''new'', txtRecord ''@'' ''apex''] ()
     = AppendRecords (fixedServer [] (\<lambda>c. False)) provider_g ''g.omg.lol.''
       [txtRecord ''_acme-challenge'' ''new'', txtRecord ''@'' ''apex''] ()
   \<and> SetRecords (traced (fixedServer [] (\<lambda>c. False))) provider_g ''g.omg.lol.''
       [txtRecord ''_acme-challenge'' ''new'', txtRecord ''@'' ''apex''] ((), [])
     = AppendRecords (traced (fixedServer [] (\<lambda>c. False))) provider_g ''g.omg.lol.''
       [txtRecord ''_acme-challenge'' ''new'', txtRecord ''@'' ''apex''] ((), [ListCall ''g''])
   \<and> SetRecords (traced (fixedServer [] (\<lambda>c. False))) provider_g ''g.omg.lol.''
       [txtRecord ''_acme-challenge'' ''new'', txtRecord ''@'' ''apex''] ((), [])
     = (([txtRecord ''_acme-challenge'' ''new'', txtRecord ''g'' ''apex''], None),
        ((), [ListCall ''g'',
              CreateCall ''g''
                \<lparr>pType = ''TXT'', pName = ''_acme-challenge'', pData = ''new'', pTTL = 300\<rparr>,
              CreateCall ''g''
                \<lparr>pType = ''TXT'', pName = ''g'', pData = ''apex'', pTTL = 300\<rparr>]))"
proof -
  let ?api = "fixedServer [] (\<lambda>c. False)"
  let ?recs = "[txtRecord ''_acme-challenge'' ''new'', txtRecord ''@'' ''apex'']"
  have g: "Address provider_g = ''g''"
    by (simp add: provider_g_def)
  have h: "listRecords ?api (Address provider_g) () = (Inr [], ())"
    by (simp add: fixedServer_def)
  note t = set_on_empty_is_append [OF h, of "''g.omg.lol.''" ?recs "[]"]
  have 1: "SetRecords ?api provider_g ''g.omg.lol.'' ?recs ()
      = AppendRecords ?api provider_g ''g.omg.lol.'' ?recs ()"
    using t by blast
  have 2: "SetRecords (traced ?api) provider_g ''g.omg.lol.'' ?recs ((), [])
      = AppendRecords (traced ?api) provider_g ''g.omg.lol.'' ?recs ((), [ListCall ''g''])"
    using t unfolding g by simp
  have "AppendRecords (traced ?api) provider_g ''g.omg.lol.'' ?recs ((), [ListCall ''g''])
     = (([txtRecord ''_acme-challenge'' ''new'', txtRecord ''g'' ''apex''], None),
        ((), [ListCall ''g'',
              CreateCall ''g''
                \<lparr>pType = ''TXT'', pName = ''_acme-challenge'', pData = ''new'', pTTL = 300\<rparr>,
              CreateCall ''g''
                \<lparr>pType = ''TXT'', pName = ''g'', pData = ''apex'', pTTL = 300\<rparr>]))"
    by code_simp
  then show ?thesis
    using 1 2 by simp
qed

section \<open>Stopping at the first error\<close>

lemma append_stops:
  assumes "AppendRecords api p zone xs s = ((created, None), s1)"
    and "createRecord api (Address p) (libdnsRecordToPayload r zone) s1 = (Inl err, s2)"
  shows "AppendRecords api p zone (xs @ r # ys) s = ((created, Some err), s2)"
  using assms appendLoop_append [of api p zone "[]" xs s created s1 "r # ys"]
  by (simp add: AppendRecords_def)

lemma set_stops:
  assumes "listRecords api (Address p) s = (Inr existing, s0)"
    and "SetRecords api p zone xs s = ((results, None), s1)"
    and "case find (\<lambda>e. EqualFold (Type e) (rrType r)
                     \<and> namesMatch (Name e) (pName (libdnsRecordToPayload r zone)) zone) existing of
           Some matched \<Rightarrow>
             updateRecord api (Address p) (recordID matched) (libdnsRecordToPayload r zone) s1
               = (Some err, s2)
         | None \<Rightarrow>
             createRecord api (Address p) (libdnsRecordToPayload r zone) s1 = (Inl err, s2)"
  shows "SetRecords api p zone (xs @ r # ys) s = ((results, Some err), s2)"
proof -
  have "setLoop api p zone existing [] xs s0 = ((results, None), s1)"
    using assms(1,2) by (simp add: SetRecords_def)
  then have "setLoop api p zone existing [] (xs @ r # ys) s0 =
      setLoop api p zone existing results (r # ys) s1"
    by (rule setLoop_append)
  moreover have "setLoop api p zone existing results (r # ys) s1 = ((results, Some err), s2)"
    using assms(3) by (simp add: Let_def split: option.splits)
  ultimately show ?thesis
    using assms(1) by (simp add: SetRecords_def)
qed

lemma delete_stops:
  assumes "listRecords api (Address p) s = (Inr (es1 @ e # es2), s0)"
    and "DeleteRecords api p zone xs s = ((deleted, None), s1)"
    and "deleteMatching api p zone r (libdnsRecordToPayload r zone) deleted es1 s1
           = ((deleted', None), s2)"
    and "spec_selected zone r e"
    and "deleteRecord api (Address p) (recordID e) s2 = (Some err, s3)"
  shows "DeleteRecords api p zone (xs @ r # ys) s = ((deleted', Some err), s3)"
proof -
  let ?es = "es1 @ e # es2"
  have "deleteLoop api p zone ?es [] xs s0 = ((deleted, None), s1)"
    using assms(1,2) by (simp add: DeleteRecords_def)
  then have a: "deleteLoop api p zone ?es [] (xs @ r # ys) s0 =
      deleteLoop api p zone ?es deleted (r # ys) s1"
    by (rule deleteLoop_append)
  have "deleteMatching api p zone r (libdnsRecordToPayload r zone) deleted ?es s1 =
      deleteMatching api p zone r (libdnsRecordToPayload r zone) deleted' (e # es2) s2"
    using assms(3) by (rule deleteMatching_append)
  also have "\<dots> = ((deleted', Some err), s3)"
    using assms(4,5) by (auto simp: spec_selected_def)
  finally have "deleteLoop api p zone ?es deleted (r # ys) s1 = ((deleted', Some err), s3)"
    by simp
  then show ?thesis
    using a assms(1) by (simp add: DeleteRecords_def)
qed

lemma deleteMatching_extends:
  "\<exists>more. fst (fst (deleteMatching api p zone rr payload deleted es s)) = deleted @ more"
proof (induction es arbitrary: deleted s)
  case Nil
  then show ?case by simp
next
  case (Cons e es)
  show ?case
  proof (cases "deleteRecord api (Address p) (recordID e) s")
    case (Pair res s')
    show ?thesis
    proof (cases res)
      case None
      obtain more where
        "fst (fst (deleteMatching api p zone rr payload (deleted @ [toLibdnsRecord e zone]) es s'))
           = (deleted @ [toLibdnsRecord e zone]) @ more"
        using Cons [of "deleted @ [toLibdnsRecord e zone]" s'] by blast
      then show ?thesis
        using Pair None Cons [of deleted s] by auto
    next
      case (Some err)
      then show ?thesis
        using Pair Cons [of deleted s] by auto
    qed
  qed
qed

text \<open>
  C7. Each of the three operations stops at the first request that fails. When the records
  \<open>xs\<close> go through without an error and the request for the next record \<open>r\<close> fails, the
  operation on \<open>xs\<close>, \<open>r\<close> and any further records \<open>ys\<close> returns that error with the list
  that processing \<open>xs\<close> (and, for Delete, the matches of \<open>r\<close> deleted before the failing one)
  produced, and the outside world is in the state the failing request left: what was applied
  stays applied, and nothing is requested for \<open>ys\<close>. For Append the failing request is the
  create; for Set it is the update of the matched record or the create when none matches; for
  Delete it is the delete of a selected record. A list request that fails ends Set and Delete
  with the error and no record.
\<close>

theorem stop_at_first_error:
  "(AppendRecords api p zone xs s = ((created, None), s1)
      \<and> createRecord api (Address p) (libdnsRecordToPayload r zone) s1 = (Inl err, s2)
    \<longrightarrow> AppendRecords api p zone (xs @ r # ys) s = ((created, Some err), s2))
   \<and> (listRecords api (Address p) s = (Inl err, s1)
    \<longrightarrow> SetRecords api p zone records s = (([], Some err), s1)
        \<and> DeleteRecords api p zone records s = (([], Some err), s1))
   \<and> (listRecords api (Address p) s = (Inr existing, s0)
      \<and> SetRecords api p zone xs s = ((results, None), s1)
      \<and> (case find (\<lambda>e. EqualFold (Type e) (rrType r)
                       \<and> namesMatch (Name e) (pName (libdnsRecordToPayload r zone)) zone)
                 existing of
            Some matched \<Rightarrow>
              updateRecord api (Address p) (recordID matched) (libdnsRecordToPayload r zone) s1
                = (Some err, s2)
          | None \<Rightarrow>
              createRecord api (Address p) (libdnsRecordToPayload r zone) s1 = (Inl err, s2))
    \<longrightarrow> SetRecords api p zone (xs @ r # ys) s = ((results, Some err), s2))
   \<and> (listRecords api (Address p) s = (Inr (es1 @ e # es2), s0)
      \<and> DeleteRecords api p zone xs s = ((deleted, None), s1)
      \<and> deleteMatching api p zone r (libdnsRecordToPayload r zone) deleted es1 s1
           = ((deleted', None), s2)
      \<and> spec_selected zone r e
      \<and> deleteRecord api (Address p) (recordID e) s2 = (Some err, s3)
    \<longrightarrow> DeleteRecords api p zone (xs @ r # ys) s = ((deleted', Some err), s3)
        \<and> (\<exists>more. deleted' = deleted @ more))"
proof -
  have 2: "SetRecords api p zone records s = (([], Some err), s1)
        \<and> DeleteRecords api p zone records s = (([], Some err), s1)"
    if "listRecords api (Address p) s = (Inl err, s1)"
    using that by (simp add: SetRecords_def DeleteRecords_def)
  have 4: "\<exists>more. deleted' = deleted @ more"
    if "deleteMatching api p zone r (libdnsRecordToPayload r zone) deleted es1 s1
           = ((deleted', None), s2)"
    using that deleteMatching_extends [of api p zone r "libdnsRecordToPayload r zone" deleted es1 s1]
    by simp
  show ?thesis
    using append_stops [of api p zone xs s created s1 r err s2 ys] 2
      set_stops [of api p s existing s0 zone xs results s1 r err s2 ys]
      delete_stops [of api p s es1 e es2 s0 zone xs deleted s1 r deleted' s2 err s3 ys] 4
    by blast
qed

theorem stop_at_first_error_witness:
  "AppendRecords (traced (fixedServer [] refused)) provider_g ''g.omg.lol.''
       ([txtRecord ''a'' ''1''] @ txtRecord ''b'' ''bad'' # [txtRecord ''c'' ''3'']) ((), [])
     = (([txtRecord ''a'' ''1''], Some serverError),
        ((), [CreateCall ''g'' \<lparr>pType = ''TXT'', pName = ''a'', pData = ''1'', pTTL = 300\<rparr>,
              CreateCall ''g'' \<lparr>pType = ''TXT'', pName = ''b'', pData = ''bad'', pTTL = 300\<rparr>]))
   \<and> SetRecords (traced (fixedServer [] refused)) provider_down ''g.omg.lol.''
       [txtRecord ''a'' ''1''] ((), [])
     = (([], Some serverError), ((), [ListCall ''down'']))
   \<and> DeleteRecords (traced (fixedServer [] refused)) provider_down ''g.omg.lol.''
       [txtRecord ''a'' ''1''] ((), [])
     = (([], Some serverError), ((), [ListCall ''down'']))
   \<and> SetRecords (traced (fixedServer [stored 1 ''TXT'' ''_acme-challenge.g'' ''old''] refused))
       provider_g ''g.omg.lol.''
       ([txtRecord ''_acme-challenge'' ''new''] @ txtRecord ''_acme-challenge'' ''bad''
          # [txtRecord ''x'' ''y'']) ((), [])
     = (([\<lparr>rrName = ''_acme-challenge'', rrTTL = 3600 * Second, rrType = ''TXT'',
            rrData = ''new''\<rparr>], Some serverError),
        ((), [ListCall ''g'',
              UpdateCall ''g'' ''1''
                \<lparr>pType = ''TXT'', pName = ''_acme-challenge'', pData = ''new'', pTTL = 300\<rparr>,
              UpdateCall ''g'' ''1''
                \<lparr>pType = ''TXT'', pName = ''_acme-challenge'', pData = ''bad'', pTTL = 300\<rparr>]))
   \<and> DeleteRecords
       (traced (fixedServer
          ([stored 1 ''TXT'' ''_acme-challenge.g'' ''a'']
             @ stored 2 ''txt'' ''_ACME-challenge.g'' ''b''
             # [stored 3 ''TXT'' ''_acme-challenge.g'' ''c'']) refused))
       provider_g ''g.omg.lol.''
       ([txtRecord ''other'' ''''] @ txtRecord ''_acme-challenge'' ''''
          # [txtRecord ''_acme-challenge'' ''c'']) ((), [])
     = (([\<lparr>rrName = ''_acme-challenge.g'', rrTTL = 3600 * Second, rrType = ''TXT'',
            rrData = ''a''\<rparr>], Some serverError),
        ((), [ListCall ''g'', DeleteCall ''g'' ''1'', DeleteCall ''g'' ''2'']))"
proof -
  let ?z = "''g.omg.lol.''"
  let ?empty = "traced (fixedServer [] refused)"
  let ?pa = "\<lparr>pType = ''TXT'', pName = ''a'', pData = ''1'', pTTL = 300\<rparr>"
  let ?pb = "\<lparr>pType = ''TXT'', pName = ''b'', pData = ''bad'', pTTL = 300\<rparr>"
  have a1: "AppendRecords ?empty provider_g ?z [txtRecord ''a'' ''1''] ((), [])
      = (([txtRecord ''a'' ''1''], None), ((), [CreateCall ''g'' ?pa]))"
    by code_simp
  have a2: "createRecord ?empty (Address provider_g) (libdnsRecordToPayload (txtRecord ''b'' ''bad'') ?z)
        ((), [CreateCall ''g'' ?pa])
      = (Inl serverError, ((), [CreateCall ''g'' ?pa, CreateCall ''g'' ?pb]))"
    by code_simp
  have A: "AppendRecords ?empty provider_g ?z
       ([txtRecord ''a'' ''1''] @ txtRecord ''b'' ''bad'' # [txtRecord ''c'' ''3'']) ((), [])
     = (([txtRecord ''a'' ''1''], Some serverError),
        ((), [CreateCall ''g'' ?pa, CreateCall ''g'' ?pb]))"
    using stop_at_first_error [THEN conjunct1, rule_format, OF conjI, OF a1 a2] .
  have b1: "listRecords ?empty (Address provider_down) ((), [])
      = (Inl serverError, ((), [ListCall ''down'']))"
    by code_simp
  have B: "SetRecords ?empty provider_down ?z [txtRecord ''a'' ''1''] ((), [])
        = (([], Some serverError), ((), [ListCall ''down'']))
      \<and> DeleteRecords ?empty provider_down ?z [txtRecord ''a'' ''1''] ((), [])
        = (([], Some serverError), ((), [ListCall ''down'']))"
    using stop_at_first_error [THEN conjunct2, THEN conjunct1, rule_format, OF b1] .
  let ?ex = "[stored 1 ''TXT'' ''_acme-challenge.g'' ''old'']"
  let ?one = "traced (fixedServer ?ex refused)"
  let ?pn = "\<lparr>pType = ''TXT'', pName = ''_acme-challenge'', pData = ''new'', pTTL = 300\<rparr>"
  let ?pbad = "\<lparr>pType = ''TXT'', pName = ''_acme-challenge'', pData = ''bad'', pTTL = 300\<rparr>"
  let ?updated = "\<lparr>rrName = ''_acme-challenge'', rrTTL = 3600 * Second, rrType = ''TXT'',
            rrData = ''new''\<rparr>"
  have c1: "listRecords ?one (Address provider_g) ((), []) = (Inr ?ex, ((), [ListCall ''g'']))"
    by code_simp
  have c2: "SetRecords ?one provider_g ?z [txtRecord ''_acme-challenge'' ''new''] ((), [])
      = (([?updated], None), ((), [ListCall ''g'', UpdateCall ''g'' ''1'' ?pn]))"
    by code_simp
  have c3: "case find (\<lambda>e. EqualFold (Type e) (rrType (txtRecord ''_acme-challenge'' ''bad''))
                       \<and> namesMatch (Name e)
                            (pName (libdnsRecordToPayload (txtRecord ''_acme-challenge'' ''bad'') ?z)) ?z)
                 ?ex of
            Some matched \<Rightarrow>
              updateRecord ?one (Address provider_g) (recordID matched)
                  (libdnsRecordToPayload (txtRecord ''_acme-challenge'' ''bad'') ?z)
                  ((), [ListCall ''g'', UpdateCall ''g'' ''1'' ?pn])
                = (Some serverError,
                   ((), [ListCall ''g'', UpdateCall ''g'' ''1'' ?pn, UpdateCall ''g'' ''1'' ?pbad]))
          | None \<Rightarrow>
              createRecord ?one (Address provider_g)
                  (libdnsRecordToPayload (txtRecord ''_acme-challenge'' ''bad'') ?z)
                  ((), [ListCall ''g'', UpdateCall ''g'' ''1'' ?pn])
                = (Inl serverError,
                   ((), [ListCall ''g'', UpdateCall ''g'' ''1'' ?pn, UpdateCall ''g'' ''1'' ?pbad]))"
    by code_simp
  have C: "SetRecords ?one provider_g ?z
       ([txtRecord ''_acme-challenge'' ''new''] @ txtRecord ''_acme-challenge'' ''bad''
          # [txtRecord ''x'' ''y'']) ((), [])
     = (([?updated], Some serverError),
        ((), [ListCall ''g'', UpdateCall ''g'' ''1'' ?pn, UpdateCall ''g'' ''1'' ?pbad]))"
    using stop_at_first_error [THEN conjunct2, THEN conjunct2, THEN conjunct1, rule_format,
        OF conjI, OF c1 conjI, OF c2 c3] .
  let ?e1 = "stored 1 ''TXT'' ''_acme-challenge.g'' ''a''"
  let ?e2 = "stored 2 ''txt'' ''_ACME-challenge.g'' ''b''"
  let ?e3 = "stored 3 ''TXT'' ''_acme-challenge.g'' ''c''"
  let ?three = "traced (fixedServer ([?e1] @ ?e2 # [?e3]) refused)"
  let ?gone = "\<lparr>rrName = ''_acme-challenge.g'', rrTTL = 3600 * Second, rrType = ''TXT'',
            rrData = ''a''\<rparr>"
  have d1: "listRecords ?three (Address provider_g) ((), [])
      = (Inr ([?e1] @ ?e2 # [?e3]), ((), [ListCall ''g'']))"
    by code_simp
  have d2: "DeleteRecords ?three provider_g ?z [txtRecord ''other'' ''''] ((), [])
      = (([], None), ((), [ListCall ''g'']))"
    by code_simp
  have d3: "deleteMatching ?three provider_g ?z (txtRecord ''_acme-challenge'' '''')
        (libdnsRecordToPayload (txtRecord ''_acme-challenge'' '''') ?z) [] [?e1]
        ((), [ListCall ''g''])
      = (([?gone], None), ((), [ListCall ''g'', DeleteCall ''g'' ''1'']))"
    by code_simp
  have d4: "spec_selected ?z (txtRecord ''_acme-challenge'' '''') ?e2"
    by code_simp
  have d5: "deleteRecord ?three (Address provider_g) (recordID ?e2)
        ((), [ListCall ''g'', DeleteCall ''g'' ''1''])
      = (Some serverError, ((), [ListCall ''g'', DeleteCall ''g'' ''1'', DeleteCall ''g'' ''2'']))"
    by code_simp
  have D: "DeleteRecords ?three provider_g ?z
       ([txtRecord ''other'' ''''] @ txtRecord ''_acme-challenge'' ''''
          # [txtRecord ''_acme-challenge'' ''c'']) ((), [])
     = (([?gone], Some serverError),
        ((), [ListCall ''g'', DeleteCall ''g'' ''1'', DeleteCall ''g'' ''2'']))"
    using stop_at_first_error [THEN conjunct2, THEN conjunct2, THEN conjunct2, rule_format,
        OF conjI, OF d1 conjI, OF d2 conjI, OF d3 conjI, OF d4 d5, THEN conjunct1] .
  show ?thesis
    using A B C D by blast
qed

section \<open>Delete\<close>

text \<open>
  When no delete request fails, the inner loop deletes exactly the records that the spec
  selects, in the order of the list, and the operation does so for each input record in turn.
\<close>

lemma deleteMatching_all:
  assumes "\<And>i t. fst (deleteRecord api (Address p) i t) = None"
  shows "fst (deleteMatching (traced api) p zone rr (libdnsRecordToPayload rr zone) deleted es (s, calls)) =
           (deleted @ map (\<lambda>e. toLibdnsRecord e zone) (filter (spec_selected zone rr) es), None)
       \<and> snd (snd (deleteMatching (traced api) p zone rr (libdnsRecordToPayload rr zone) deleted es (s, calls))) =
           calls @ map (\<lambda>e. DeleteCall (Address p) (recordID e)) (filter (spec_selected zone rr) es)"
proof (induction es arbitrary: deleted s calls)
  case Nil
  then show ?case by simp
next
  case (Cons e es)
  show ?case
  proof (cases "spec_selected zone rr e")
    case False
    then show ?thesis
      using Cons.IH [of deleted s calls] by (auto simp: spec_selected_def)
  next
    case True
    obtain s' where d: "deleteRecord api (Address p) (recordID e) s = (None, s')"
      using assms [of "recordID e" s] by (cases "deleteRecord api (Address p) (recordID e) s") simp
    show ?thesis
      using True d
        Cons.IH [of "deleted @ [toLibdnsRecord e zone]" s' "calls @ [DeleteCall (Address p) (recordID e)]"]
      by (auto simp: spec_selected_def traced_delete)
  qed
qed

lemma deleteLoop_all:
  assumes "\<And>i t. fst (deleteRecord api (Address p) i t) = None"
  shows "fst (deleteLoop (traced api) p zone es deleted records (s, calls)) =
           (deleted @ concat (map (\<lambda>rr. map (\<lambda>e. toLibdnsRecord e zone) (filter (spec_selected zone rr) es)) records), None)
       \<and> snd (snd (deleteLoop (traced api) p zone es deleted records (s, calls))) =
           calls @ concat (map (\<lambda>rr. map (\<lambda>e. DeleteCall (Address p) (recordID e)) (filter (spec_selected zone rr) es)) records)"
proof (induction records arbitrary: deleted s calls)
  case Nil
  then show ?case by simp
next
  case (Cons rr records)
  let ?m = "deleteMatching (traced api) p zone rr (libdnsRecordToPayload rr zone) deleted es (s, calls)"
  obtain d s' calls' where m: "?m = ((d, None), (s', calls'))"
    and d: "d = deleted @ map (\<lambda>e. toLibdnsRecord e zone) (filter (spec_selected zone rr) es)"
    and l: "calls' = calls @ map (\<lambda>e. DeleteCall (Address p) (recordID e)) (filter (spec_selected zone rr) es)"
    using deleteMatching_all [OF assms, of zone rr deleted es s calls]
    by (cases ?m) auto
  show ?case
    using m d l Cons.IH [of d s' calls'] by simp
qed

lemma DeleteRecords_all:
  assumes "listRecords api (Address p) s = (Inr existing, s1)"
    and "\<And>i t. fst (deleteRecord api (Address p) i t) = None"
  shows "fst (DeleteRecords (traced api) p zone records (s, calls)) =
      (concat (map (\<lambda>rr. map (\<lambda>e. toLibdnsRecord e zone)
                          (filter (spec_selected zone rr) existing)) records), None)"
    and "snd (snd (DeleteRecords (traced api) p zone records (s, calls))) =
      calls @ ListCall (Address p) #
        concat (map (\<lambda>rr. map (\<lambda>e. DeleteCall (Address p) (recordID e))
                          (filter (spec_selected zone rr) existing)) records)"
  using assms(1) deleteLoop_all [OF assms(2), of zone existing "[]" records s1 "calls @ [ListCall (Address p)]"]
  by (simp_all add: DeleteRecords_def traced_list)

text \<open>
  C6. With the list request answered by \<open>existing\<close> and no delete request failing,
  \<open>DeleteRecords\<close> issues, for each input record in turn, a delete request for every existing
  record that the spec selects (type equal without regard to case, name matching by
  \<open>namesMatch\<close>, and data exactly equal when the input record has data), in the order of the
  existing records, and returns those records in that order without an error. In particular,
  for one input record without data and two existing records that both match its type and
  name, both are deleted and returned, the first before the second.
\<close>

theorem delete_removes_every_match:
  assumes "listRecords api (Address p) s = (Inr existing, s1)"
    and "\<forall>i t. fst (deleteRecord api (Address p) i t) = None"
  shows "fst (DeleteRecords (traced api) p zone records (s, calls)) =
      (concat (map (\<lambda>rr. map (\<lambda>e. toLibdnsRecord e zone)
                          (filter (spec_selected zone rr) existing)) records), None)
    \<and> snd (snd (DeleteRecords (traced api) p zone records (s, calls))) =
      calls @ ListCall (Address p) #
        concat (map (\<lambda>rr. map (\<lambda>e. DeleteCall (Address p) (recordID e))
                          (filter (spec_selected zone rr) existing)) records)
    \<and> (records = [rr] \<and> existing = [e1, e2] \<and> rrData rr = []
        \<and> EqualFold (Type e1) (rrType rr) \<and> EqualFold (Type e2) (rrType rr)
        \<and> namesMatch (Name e1) (pName (libdnsRecordToPayload rr zone)) zone
        \<and> namesMatch (Name e2) (pName (libdnsRecordToPayload rr zone)) zone
       \<longrightarrow> fst (DeleteRecords (traced api) p zone records (s, calls)) =
             ([toLibdnsRecord e1 zone, toLibdnsRecord e2 zone], None)
           \<and> snd (snd (DeleteRecords (traced api) p zone records (s, calls))) =
             calls @ [ListCall (Address p), DeleteCall (Address p) (recordID e1),
                      DeleteCall (Address p) (recordID e2)])"
proof -
  have nf: "\<And>i t. fst (deleteRecord api (Address p) i t) = None"
    using assms(2) by blast
  note all = DeleteRecords_all [OF assms(1) nf, of zone records calls]
  have "fst (DeleteRecords (traced api) p zone records (s, calls)) =
             ([toLibdnsRecord e1 zone, toLibdnsRecord e2 zone], None)
      \<and> snd (snd (DeleteRecords (traced api) p zone records (s, calls))) =
             calls @ [ListCall (Address p), DeleteCall (Address p) (recordID e1),
                      DeleteCall (Address p) (recordID e2)]"
    if "records = [rr]" "existing = [e1, e2]" "spec_selected zone rr e1" "spec_selected zone rr e2"
    unfolding all using that by simp
  then show ?thesis
    using all by (simp add: spec_selected_def)
qed

theorem delete_removes_every_match_witness:
  "fst (DeleteRecords
         (traced (fixedServer
            [stored 1 ''TXT'' ''_acme-challenge.g'' ''a'',
             stored 5 ''txt'' ''_ACME-challenge.g'' ''b'',
             stored 3 ''A'' ''www.g'' ''c''] (\<lambda>c. False)))
         provider_g ''g.omg.lol.''
         [txtRecord ''_acme-challenge'' '''', txtRecord ''_acme-challenge'' ''b''] ((), []))
     = ([\<lparr>rrName = ''_acme-challenge.g'', rrTTL = 3600 * Second, rrType = ''TXT'', rrData = ''a''\<rparr>,
         \<lparr>rrName = ''_ACME-challenge.g'', rrTTL = 3600 * Second, rrType = ''txt'', rrData = ''b''\<rparr>,
         \<lparr>rrName = ''_ACME-challenge.g'', rrTTL = 3600 * Second, rrType = ''txt'', rrData = ''b''\<rparr>],
        None)
   \<and> snd (snd (DeleteRecords
         (traced (fixedServer
            [stored 1 ''TXT'' ''_acme-challenge.g'' ''a'',
             stored 5 ''txt'' ''_ACME-challenge.g'' ''b'',
             stored 3 ''A'' ''www.g'' ''c''] (\<lambda>c. False)))
         provider_g ''g.omg.lol.''
         [txtRecord ''_acme-challenge'' '''', txtRecord ''_acme-challenge'' ''b''] ((), [])))
     = [ListCall ''g'', DeleteCall ''g'' ''1'', DeleteCall ''g'' ''5'', DeleteCall ''g'' ''5'']
   \<and> DeleteRecords
         (traced (fixedServer
            [stored 1 ''TXT'' ''_acme-challenge.g'' ''a'',
             stored 5 ''txt'' ''_ACME-challenge.g'' ''b''] (\<lambda>c. False)))
         provider_g ''g.omg.lol.'' [txtRecord ''_acme-challenge'' ''''] ((), [])
     = (([toLibdnsRecord (stored 1 ''TXT'' ''_acme-challenge.g'' ''a'') ''g.omg.lol.'',
          toLibdnsRecord (stored 5 ''txt'' ''_ACME-challenge.g'' ''b'') ''g.omg.lol.''], None),
        ((), [ListCall ''g'', DeleteCall ''g'' ''1'', DeleteCall ''g'' ''5'']))"
proof -
  let ?ex = "[stored 1 ''TXT'' ''_acme-challenge.g'' ''a'',
             stored 5 ''txt'' ''_ACME-challenge.g'' ''b'',
             stored 3 ''A'' ''www.g'' ''c'']"
  let ?api = "fixedServer ?ex (\<lambda>c. False)"
  let ?recs = "[txtRecord ''_acme-challenge'' '''', txtRecord ''_acme-challenge'' ''b'']"
  have h1: "listRecords ?api (Address provider_g) () = (Inr ?ex, ())"
    by (simp add: fixedServer_def)
  have h2: "\<forall>i t. fst (deleteRecord ?api (Address provider_g) i t) = None"
    by (simp add: fixedServer_def)
  note t = delete_removes_every_match [OF h1 h2, of "''g.omg.lol.''" ?recs "[]"]
  have v1: "concat (map (\<lambda>rr. map (\<lambda>e. toLibdnsRecord e ''g.omg.lol.'')
                          (filter (spec_selected ''g.omg.lol.'' rr) ?ex)) ?recs)
     = [\<lparr>rrName = ''_acme-challenge.g'', rrTTL = 3600 * Second, rrType = ''TXT'', rrData = ''a''\<rparr>,
         \<lparr>rrName = ''_ACME-challenge.g'', rrTTL = 3600 * Second, rrType = ''txt'', rrData = ''b''\<rparr>,
         \<lparr>rrName = ''_ACME-challenge.g'', rrTTL = 3600 * Second, rrType = ''txt'', rrData = ''b''\<rparr>]"
    by code_simp
  have v2: "[] @ ListCall (Address provider_g) #
        concat (map (\<lambda>rr. map (\<lambda>e. DeleteCall (Address provider_g) (recordID e))
                          (filter (spec_selected ''g.omg.lol.'' rr) ?ex)) ?recs)
     = [ListCall ''g'', DeleteCall ''g'' ''1'', DeleteCall ''g'' ''5'', DeleteCall ''g'' ''5'']"
    by code_simp
  have first: "fst (DeleteRecords (traced ?api) provider_g ''g.omg.lol.'' ?recs ((), []))
     = ([\<lparr>rrName = ''_acme-challenge.g'', rrTTL = 3600 * Second, rrType = ''TXT'', rrData = ''a''\<rparr>,
         \<lparr>rrName = ''_ACME-challenge.g'', rrTTL = 3600 * Second, rrType = ''txt'', rrData = ''b''\<rparr>,
         \<lparr>rrName = ''_ACME-challenge.g'', rrTTL = 3600 * Second, rrType = ''txt'', rrData = ''b''\<rparr>],
        None)
   \<and> snd (snd (DeleteRecords (traced ?api) provider_g ''g.omg.lol.'' ?recs ((), [])))
     = [ListCall ''g'', DeleteCall ''g'' ''1'', DeleteCall ''g'' ''5'', DeleteCall ''g'' ''5'']"
    using t [THEN conjunct1] t [THEN conjunct2, THEN conjunct1] unfolding v1 v2 by (rule conjI)
  let ?e1 = "stored 1 ''TXT'' ''_acme-challenge.g'' ''a''"
  let ?e2 = "stored 5 ''txt'' ''_ACME-challenge.g'' ''b''"
  let ?two = "fixedServer [?e1, ?e2] (\<lambda>c. False)"
  let ?rr = "txtRecord ''_acme-challenge'' ''''"
  let ?run = "DeleteRecords (traced ?two) provider_g ''g.omg.lol.'' [?rr] ((), [])"
  have k1: "listRecords ?two (Address provider_g) () = (Inr [?e1, ?e2], ())"
    by (simp add: fixedServer_def)
  have k2: "\<forall>i t. fst (deleteRecord ?two (Address provider_g) i t) = None"
    by (simp add: fixedServer_def)
  have k3: "[?rr] = [?rr] \<and> [?e1, ?e2] = [?e1, ?e2] \<and> rrData ?rr = []
        \<and> EqualFold (Type ?e1) (rrType ?rr) \<and> EqualFold (Type ?e2) (rrType ?rr)
        \<and> namesMatch (Name ?e1) (pName (libdnsRecordToPayload ?rr ''g.omg.lol.'')) ''g.omg.lol.''
        \<and> namesMatch (Name ?e2) (pName (libdnsRecordToPayload ?rr ''g.omg.lol.'')) ''g.omg.lol.''"
    by code_simp
  have ids: "[] @ [ListCall (Address provider_g), DeleteCall (Address provider_g) (recordID ?e1),
                  DeleteCall (Address provider_g) (recordID ?e2)]
      = [ListCall ''g'', DeleteCall ''g'' ''1'', DeleteCall ''g'' ''5'']"
    by code_simp
  have "fst ?run = ([toLibdnsRecord ?e1 ''g.omg.lol.'', toLibdnsRecord ?e2 ''g.omg.lol.''], None)
      \<and> snd (snd ?run) = [ListCall ''g'', DeleteCall ''g'' ''1'', DeleteCall ''g'' ''5'']"
    using delete_removes_every_match [OF k1 k2, of "''g.omg.lol.''" "[?rr]" "[]" ?rr ?e1 ?e2,
        THEN conjunct2, THEN conjunct2, rule_format, OF k3]
    unfolding ids .
  then have second: "?run
     = (([toLibdnsRecord ?e1 ''g.omg.lol.'', toLibdnsRecord ?e2 ''g.omg.lol.''], None),
        ((), [ListCall ''g'', DeleteCall ''g'' ''1'', DeleteCall ''g'' ''5'']))"
    by (cases ?run) auto
  show ?thesis
    using first second by blast
qed

lemma count_concat_ge:
  assumes "\<And>x. P x \<Longrightarrow> y \<in> set (f x)"
  shows "length (filter P xs) \<le> count_list (concat (map f xs)) y"
proof (induction xs)
  case Nil
  then show ?case by simp
next
  case (Cons x xs)
  show ?case
  proof (cases "P x")
    case True
    then have "count_list (f x) y \<noteq> 0"
      using assms by (simp add: count_list_0_iff)
    then show ?thesis
      using Cons True by simp
  next
    case False
    then show ?thesis
      using Cons by simp
  qed
qed

lemma concat_single_replicate:
  "concat (map (\<lambda>x. map g (filter (Q x) [e])) xs) = replicate (length (filter (\<lambda>x. Q x e) xs)) (g e)"
  by (induction xs) auto

text \<open>
  C10. \<open>DeleteRecords\<close> lists once and matches every input record against that one list,
  from which nothing is removed: with no delete request failing, an existing record \<open>e\<close> gets
  a delete request for its identifier, and appears in the returned list, at least once for
  each input record that selects it; and when \<open>e\<close> is the only existing record, exactly once
  for each such input record, so twice when two input records select it.
\<close>

theorem delete_once_per_matching_input:
  assumes "listRecords api (Address p) s = (Inr existing, s1)"
    and "\<forall>i t. fst (deleteRecord api (Address p) i t) = None"
    and "e \<in> set existing"
  shows "count_list (snd (snd (DeleteRecords (traced api) p zone records (s, [])))) (ListCall (Address p)) = 1
    \<and> length (filter (\<lambda>rr. spec_selected zone rr e) records)
        \<le> count_list (snd (snd (DeleteRecords (traced api) p zone records (s, []))))
             (DeleteCall (Address p) (recordID e))
    \<and> length (filter (\<lambda>rr. spec_selected zone rr e) records)
        \<le> count_list (fst (fst (DeleteRecords (traced api) p zone records (s, []))))
             (toLibdnsRecord e zone)
    \<and> (existing = [e] \<longrightarrow>
         snd (snd (DeleteRecords (traced api) p zone records (s, []))) =
           ListCall (Address p) #
             replicate (length (filter (\<lambda>rr. spec_selected zone rr e) records))
               (DeleteCall (Address p) (recordID e))
         \<and> fst (fst (DeleteRecords (traced api) p zone records (s, []))) =
           replicate (length (filter (\<lambda>rr. spec_selected zone rr e) records))
             (toLibdnsRecord e zone))"
proof -
  let ?run = "DeleteRecords (traced api) p zone records (s, [])"
  let ?dels = "concat (map (\<lambda>rr. map (\<lambda>e. DeleteCall (Address p) (recordID e))
                          (filter (spec_selected zone rr) existing)) records)"
  let ?recs = "concat (map (\<lambda>rr. map (\<lambda>e. toLibdnsRecord e zone)
                          (filter (spec_selected zone rr) existing)) records)"
  have nf: "\<And>i t. fst (deleteRecord api (Address p) i t) = None"
    using assms(2) by blast
  have r: "fst (fst ?run) = ?recs"
    using DeleteRecords_all(1) [OF assms(1) nf, of zone records "[]"] by simp
  have c: "snd (snd ?run) = ListCall (Address p) # ?dels"
    using DeleteRecords_all(2) [OF assms(1) nf, of zone records "[]"] by simp
  have "ListCall (Address p) \<notin> set ?dels"
    by auto
  then have 1: "count_list (snd (snd ?run)) (ListCall (Address p)) = 1"
    unfolding c by (simp add: count_list_0_iff)
  have "length (filter (\<lambda>rr. spec_selected zone rr e) records)
        \<le> count_list ?dels (DeleteCall (Address p) (recordID e))"
    using assms(3) by (intro count_concat_ge) auto
  then have 2: "length (filter (\<lambda>rr. spec_selected zone rr e) records)
        \<le> count_list (snd (snd ?run)) (DeleteCall (Address p) (recordID e))"
    unfolding c by simp
  have 3: "length (filter (\<lambda>rr. spec_selected zone rr e) records)
        \<le> count_list (fst (fst ?run)) (toLibdnsRecord e zone)"
    unfolding r using assms(3) by (intro count_concat_ge) auto
  have 4: "snd (snd ?run) = ListCall (Address p) #
             replicate (length (filter (\<lambda>rr. spec_selected zone rr e) records))
               (DeleteCall (Address p) (recordID e))
         \<and> fst (fst ?run) =
           replicate (length (filter (\<lambda>rr. spec_selected zone rr e) records))
             (toLibdnsRecord e zone)" if "existing = [e]"
    unfolding r c that by (simp only: concat_single_replicate)
  show ?thesis
    using 1 2 3 4 by blast
qed

theorem delete_once_per_matching_input_witness:
  "count_list (snd (snd (DeleteRecords
         (traced (fixedServer [stored 1 ''TXT'' ''_acme-challenge.g'' ''old''] (\<lambda>c. False)))
         provider_g ''g.omg.lol.''
         [txtRecord ''_acme-challenge'' '''', txtRecord ''_acme-challenge'' ''old''] ((), []))))
       (ListCall ''g'') = 1
   \<and> snd (snd (DeleteRecords
         (traced (fixedServer [stored 1 ''TXT'' ''_acme-challenge.g'' ''old''] (\<lambda>c. False)))
         provider_g ''g.omg.lol.''
         [txtRecord ''_acme-challenge'' '''', txtRecord ''_acme-challenge'' ''old''] ((), [])))
     = [ListCall ''g'', DeleteCall ''g'' ''1'', DeleteCall ''g'' ''1'']
   \<and> fst (fst (DeleteRecords
         (traced (fixedServer [stored 1 ''TXT'' ''_acme-challenge.g'' ''old''] (\<lambda>c. False)))
         provider_g ''g.omg.lol.''
         [txtRecord ''_acme-challenge'' '''', txtRecord ''_acme-challenge'' ''old''] ((), [])))
     = [\<lparr>rrName = ''_acme-challenge.g'', rrTTL = 3600 * Second, rrType = ''TXT'', rrData = ''old''\<rparr>,
        \<lparr>rrName = ''_acme-challenge.g'', rrTTL = 3600 * Second, rrType = ''TXT'', rrData = ''old''\<rparr>]"
proof -
  let ?e = "stored 1 ''TXT'' ''_acme-challenge.g'' ''old''"
  let ?api = "fixedServer [?e] (\<lambda>c. False)"
  let ?recs = "[txtRecord ''_acme-challenge'' '''', txtRecord ''_acme-challenge'' ''old'']"
  have h1: "listRecords ?api (Address provider_g) () = (Inr [?e], ())"
    by (simp add: fixedServer_def)
  have h2: "\<forall>i t. fst (deleteRecord ?api (Address provider_g) i t) = None"
    by (simp add: fixedServer_def)
  have h3: "?e \<in> set [?e]"
    by simp
  note t = delete_once_per_matching_input [OF h1 h2 h3, of "''g.omg.lol.''" ?recs]
  have n: "length (filter (\<lambda>rr. spec_selected ''g.omg.lol.'' rr ?e) ?recs) = 2"
    by code_simp
  have g: "Address provider_g = ''g''"
    by (simp add: provider_g_def)
  have i: "recordID ?e = ''1''"
    by code_simp
  have r: "toLibdnsRecord ?e ''g.omg.lol.''
      = \<lparr>rrName = ''_acme-challenge.g'', rrTTL = 3600 * Second, rrType = ''TXT'', rrData = ''old''\<rparr>"
    by code_simp
  have two: "replicate 2 x = [x, x]" for x :: 'a
    by (simp add: numeral_2_eq_2)
  show ?thesis
    using t unfolding n g i r two by simp
qed

end
